theory Spec2Isabelle
  imports Main "HOL-Library.Word"
begin

section \<open>JavaScript values used by \<^verbatim>\<open>src/index.js\<close>\<close>

text \<open>
  A JavaScript string is a sequence of 16-bit code units. The operations the action
  applies to strings (\<^verbatim>\<open>endsWith\<close>, \<^verbatim>\<open>replace\<close>, \<^verbatim>\<open>+\<close>, \<^verbatim>\<open>split\<close>,
  \<^verbatim>\<open>join\<close>) compare code units only, so a string is a list of 16-bit words.
  \<open>lit\<close> writes an ASCII literal.
\<close>

type_synonym jschar = "16 word"
type_synonym jsstring = "jschar list"

definition lit :: "string \<Rightarrow> jsstring" where
  "lit s = map (\<lambda>c. word_of_nat (of_char c)) s"

text \<open>
  Everything thrown inside \<^verbatim>\<open>main\<close> is caught at line 201 and only its
  \<^verbatim>\<open>message\<close> is used. A \<open>TypeError\<close> is raised by the language itself (a property
  read on \<^verbatim>\<open>null\<close>/\<^verbatim>\<open>undefined\<close>, a call of a non-function); a \<open>ServiceError\<close> is a
  rejection of a promise returned by one of the two service clients.
\<close>

datatype error = TypeError jsstring | ServiceError jsstring

fun message :: "error \<Rightarrow> jsstring" where
  "message (TypeError m) = m"
| "message (ServiceError m) = m"

text \<open>\<^verbatim>\<open>xs[i]\<close>: reading past the end of an array gives \<^verbatim>\<open>undefined\<close>.\<close>

definition at :: "'a list \<Rightarrow> nat \<Rightarrow> 'a option" where
  "at xs i = (if i < length xs then Some (xs ! i) else None)"

section \<open>Override Builder: the command (lines 65--89)\<close>

text \<open>The continuation marker, \<^verbatim>\<open>'\\'\<close> in the source: one backslash, U+005C.\<close>

definition backslash :: jschar where
  "backslash = 0x5C"

text \<open>\<^verbatim>\<open>x.endsWith(c)\<close> for a one-unit string \<open>c\<close>.\<close>

definition endsWith :: "jsstring \<Rightarrow> jschar \<Rightarrow> bool" where
  "endsWith x c = (x \<noteq> [] \<and> last x = c)"

text \<open>
  \<^verbatim>\<open>x.replace(/\\$/, '')\<close>: the pattern has no flag, so \<^verbatim>\<open>$\<close> matches at the end
  of the input only and the one possible match is a backslash in last position.
\<close>

definition replaceMarker :: "jsstring \<Rightarrow> jsstring" where
  "replaceMarker x = (if endsWith x backslash then butlast x else x)"

text \<open>
  The array \<^verbatim>\<open>overrideContainerCommand\<close> holds strings at first; the callback
  stores \<^verbatim>\<open>null\<close> in it (line 79).
\<close>

datatype slot = Str jsstring | Null

text \<open>
  \<^verbatim>\<open>s + v\<close> with a string on the left (line 78): \<^verbatim>\<open>null\<close> on the right is
  converted to the string \<^verbatim>\<open>"null"\<close>.
\<close>

fun concatSlot :: "jsstring \<Rightarrow> slot \<Rightarrow> jsstring" where
  "concatSlot s (Str t) = s @ t"
| "concatSlot s Null = s @ lit ''null''"

text \<open>
  The callback of \<^verbatim>\<open>map\<close> (lines 70--82), called with \<open>x = arr[i]\<close> for an index
  \<open>i\<close> inside the array. \<^verbatim>\<open>x.endsWith\<close> on \<^verbatim>\<open>null\<close> is a TypeError. Line 76 makes
  \<open>i + 1\<close> an index of the array where line 78 reads and writes it. The value the
  callback returns is not used: \<^verbatim>\<open>map\<close> serves as a loop that mutates \<open>arr\<close>.
\<close>

definition mergeCallback :: "nat \<Rightarrow> slot list \<Rightarrow> error + slot list" where
  "mergeCallback i arr =
     (case arr ! i of
        Null \<Rightarrow> Inl (TypeError (lit ''Cannot read properties of null (reading 'endsWith')''))
      | Str x \<Rightarrow>
          if endsWith x backslash then
            (let arr1 = arr[i := Str (replaceMarker x)] in
             if int (length arr1) - 1 \<noteq> int i then
               (let arr2 = arr1[i + 1 := Str (concatSlot (replaceMarker x) (arr1 ! (i + 1)))]
                in Inr (arr2[i := Null]))
             else Inr arr1)
          else Inr arr)"

text \<open>
  \<^verbatim>\<open>Array.prototype.map\<close>: the length is read once, before the first call; index
  \<open>k\<close> is visited when it is (still) an index of the array, and the callback gets the
  element as it is at that moment, so it sees what the call before stored at \<open>k\<close>.
\<close>

function mapLoop :: "nat \<Rightarrow> nat \<Rightarrow> slot list \<Rightarrow> error + slot list" where
  "mapLoop k len arr =
     (if k < len then
        (if k < length arr then
           (case mergeCallback k arr of
              Inl e \<Rightarrow> Inl e
            | Inr arr' \<Rightarrow> mapLoop (k + 1) len arr')
         else mapLoop (k + 1) len arr)
      else Inr arr)"
  by pat_completeness auto
termination
  by (relation "measure (\<lambda>(k, len, arr). len - k)") auto

text \<open>\<^verbatim>\<open>filter(x => x)\<close> (line 85): \<^verbatim>\<open>null\<close> and the empty string are falsy.\<close>

fun truthy :: "slot \<Rightarrow> bool" where
  "truthy Null = False"
| "truthy (Str s) = (s \<noteq> [])"

fun slotStrings :: "slot list \<Rightarrow> jsstring list" where
  "slotStrings [] = []"
| "slotStrings (Str s # vs) = s # slotStrings vs"
| "slotStrings (Null # vs) = slotStrings vs"

text \<open>\<^verbatim>\<open>parsedCommand\<close> (lines 70--85) from the lines of the input.\<close>

definition parsedCommand :: "jsstring list \<Rightarrow> error + jsstring list" where
  "parsedCommand overrideContainerCommand =
     (case mapLoop 0 (length overrideContainerCommand) (map Str overrideContainerCommand) of
        Inl e \<Rightarrow> Inl e
      | Inr arr \<Rightarrow> Inr (slotStrings (filter truthy arr)))"

section \<open>Override Builder: the environment (lines 91--100)\<close>

definition equals :: jschar where
  "equals = 0x3D"

text \<open>
  The line terminators, which \<^verbatim>\<open>.\<close> in a pattern without the \<^verbatim>\<open>s\<close> flag does not
  match: LF, CR, U+2028, U+2029.
\<close>

definition lineTerminator :: "jschar \<Rightarrow> bool" where
  "lineTerminator c = (c = 0x0A \<or> c = 0x0D \<or> c = 0x2028 \<or> c = 0x2029)"

text \<open>
  \<^verbatim>\<open>x.split(/=(.*)/)\<close>. \<open>acc\<close> is the piece since the end of the last match, \<open>s\<close> the
  rest of the input. The pattern matches at an \<^verbatim>\<open>=\<close> and takes every unit after
  it up to the next line terminator (or the end) into its group; the piece before the
  match and the group are both pushed, and the search goes on after the match. The
  rest of the input after the last match is the last piece.
\<close>

function splitLoop :: "jsstring \<Rightarrow> jsstring \<Rightarrow> jsstring list" where
  "splitLoop acc [] = [acc]"
| "splitLoop acc (c # cs) =
     (if c = equals then
        acc # takeWhile (\<lambda>d. \<not> lineTerminator d) cs
            # splitLoop [] (dropWhile (\<lambda>d. \<not> lineTerminator d) cs)
      else splitLoop (acc @ [c]) cs)"
  by pat_completeness auto
termination
  by (relation "measure (\<lambda>(acc, s). length s)")
     (auto simp: length_dropWhile_le le_imp_less_Suc)

definition splitEquals :: "jsstring \<Rightarrow> jsstring list" where
  "splitEquals x = splitLoop [] x"

text \<open>
  One entry of \<^verbatim>\<open>overrides.environment\<close>: \<^verbatim>\<open>parts[0]\<close> and \<^verbatim>\<open>parts[1]\<close>, each
  \<^verbatim>\<open>undefined\<close> (\<open>None\<close>) when \<open>parts\<close> is too short.
\<close>

record envEntry =
  name :: "jsstring option"
  val :: "jsstring option"

definition envEntryOf :: "jsstring \<Rightarrow> envEntry" where
  "envEntryOf x =
     (let parts = splitEquals x in \<lparr>name = at parts 0, val = at parts 1\<rparr>)"

section \<open>Override Builder: the descriptor (lines 60--105)\<close>

record containerOverride =
  containerName :: jsstring
  command :: "jsstring list option"
  environment :: "envEntry list option"

text \<open>
  Nothing is built for an empty container name (line 60); \<open>command\<close> and
  \<open>environment\<close> are set only for a non-empty input (lines 65, 91).
\<close>

definition buildOverrides ::
  "jsstring \<Rightarrow> jsstring list \<Rightarrow> jsstring list \<Rightarrow> error + containerOverride option" where
  "buildOverrides overrideContainer overrideContainerCommand overrideContainerEnvironment =
     (if overrideContainer \<noteq> [] then
        (case (if overrideContainerCommand \<noteq> []
               then map_sum id Some (parsedCommand overrideContainerCommand)
               else Inr None) of
           Inl e \<Rightarrow> Inl e
         | Inr cmd \<Rightarrow>
             Inr (Some \<lparr>containerName = overrideContainer,
                        command = cmd,
                        environment =
                          (if overrideContainerEnvironment \<noteq> []
                           then Some (map envEntryOf overrideContainerEnvironment)
                           else None)\<rparr>))
      else Inr None)"

section \<open>The collaborators of \<^verbatim>\<open>main\<close>\<close>

text \<open>
  \<^verbatim>\<open>main\<close> talks to the two service clients, to the waiters of the ECS client and to
  the Actions toolkit (\<^verbatim>\<open>core\<close>). None of them is part of this repository: what
  they answer is a parameter of the model (\<open>env\<close>), and what \<^verbatim>\<open>main\<close> asks of them,
  in the order it asks, is the trace of events the model returns. Calls of
  \<^verbatim>\<open>core.debug\<close> are left out: they return nothing and the control flow does not
  depend on them.
\<close>

datatype waiterName = TasksRunning | TasksStopped

text \<open>The \<^verbatim>\<open>$waiter\<close> object of lines 125--128 and 133--136.\<close>

record waiterConfig =
  delay :: nat
  maxAttempts :: nat

datatype waiterEvent = Poll | Sleep nat

record runTaskParams =
  rtCount :: nat
  rtCluster :: jsstring
  rtTaskDefinition :: jsstring
  rtLaunchType :: jsstring
  rtSubnets :: "jsstring list"
  rtAssignPublicIp :: jsstring
  rtSecurityGroups :: "jsstring list"
  rtOverrides :: "containerOverride list option"

text \<open>The parameters of a \<^verbatim>\<open>GetLogEventsCommand\<close> (lines 14--18).\<close>

record getLogEvents =
  logGroupName :: jsstring
  logStreamName :: jsstring
  startTime :: nat

record logEvent =
  timestamp :: nat
  logMessage :: jsstring

datatype event =
    SendRunTask runTaskParams
  | WaitFor waiterName jsstring jsstring waiterConfig
  | Waiter waiterName waiterEvent
  | DescribeTaskDefinition jsstring
  | PollLogEvents jsstring jsstring nat
  | SendGetLogEvents getLogEvents
  | ConsoleLog "logEvent list"
  | ConsoleError jsstring error
  | SendDescribeTasks jsstring jsstring
  | SetOutput jsstring jsstring
  | Info jsstring
  | SetFailed "jsstring option"

record logConfiguration =
  logDriver :: jsstring
  options :: "(jsstring \<times> jsstring) list option"

record container =
  cname :: jsstring
  logConfig :: "logConfiguration option"

record taskDef =
  containerDefinitions :: "container list option"

record containerState =
  exitCode :: "int option"

record describedTask =
  containers :: "containerState list"
  stoppedReason :: "jsstring option"

text \<open>
  The answers of the collaborators. \<open>runTask\<close> is the list of the \<^verbatim>\<open>taskArn\<close>s of
  \<^verbatim>\<open>task.tasks\<close>; \<open>waitFor\<close> is what \<^verbatim>\<open>ecs.waitFor\<close> does for a waiter name and its
  configuration: the polls it makes and whether its promise resolves; \<open>now\<close> is
  \<^verbatim>\<open>+new Date()\<close>, in milliseconds; \<open>region\<close> is the text of \<^verbatim>\<open>ecs.region\<close> in the
  template of line 198.
\<close>

record env =
  runTask :: "error + jsstring list"
  waitFor :: "waiterName \<Rightarrow> waiterConfig \<Rightarrow> waiterEvent list \<times> (error + unit)"
  describeTaskDefinition :: "error + taskDef option"
  describeTasks :: "error + describedTask list"
  now :: nat
  region :: jsstring

text \<open>
  \<^verbatim>\<open>taskStoppedWaitForMaxAttempts\<close> is the integer that \<^verbatim>\<open>parseInt\<close> reads at
  line 42; the inputs are taken as read.
\<close>

record inputs =
  cluster :: jsstring
  taskDefinition :: jsstring
  subnets :: "jsstring list"
  securityGroups :: "jsstring list"
  tailLogs :: bool
  assignPublicIp :: jsstring
  overrideContainer :: jsstring
  overrideContainerCommand :: "jsstring list"
  overrideContainerEnvironment :: "jsstring list"
  taskStoppedWaitForMaxAttempts :: nat

section \<open>Sequencing inside the \<^verbatim>\<open>try\<close> block\<close>

text \<open>
  A step returns the events it caused and either the error it threw or its value.
  \<open>bind\<close> is \<^verbatim>\<open>;\<close> (and \<^verbatim>\<open>await\<close>): when the first step throws, the second is not
  run.
\<close>

type_synonym 'a step = "event list \<times> (error + 'a)"

definition ret :: "'a \<Rightarrow> 'a step" where
  "ret a = ([], Inr a)"

definition emit :: "event \<Rightarrow> unit step" where
  "emit e = ([e], Inr ())"

definition throw :: "error \<Rightarrow> 'a step" where
  "throw e = ([], Inl e)"

definition lift :: "error + 'a \<Rightarrow> 'a step" where
  "lift r = ([], r)"

definition bind :: "'a step \<Rightarrow> ('a \<Rightarrow> 'b step) \<Rightarrow> 'b step" where
  "bind m f =
     (case m of
        (tr, Inl e) \<Rightarrow> (tr, Inl e)
      | (tr, Inr a) \<Rightarrow> (case f a of (tr', r) \<Rightarrow> (tr @ tr', r)))"

section \<open>Task Launcher (lines 44--118)\<close>

definition slash :: jschar where
  "slash = 0x2F"

text \<open>\<^verbatim>\<open>s.split(c)\<close> for a one-unit separator: never the empty array.\<close>

fun splitChar :: "jschar \<Rightarrow> jsstring \<Rightarrow> jsstring \<Rightarrow> jsstring list" where
  "splitChar c acc [] = [acc]"
| "splitChar c acc (d # ds) =
     (if d = c then acc # splitChar c [] ds else splitChar c (acc @ [d]) ds)"

text \<open>\<^verbatim>\<open>taskArn.split('/').pop()\<close> (line 115).\<close>

definition taskIdOf :: "jsstring \<Rightarrow> jsstring" where
  "taskIdOf taskArn = last (splitChar slash [] taskArn)"

definition taskRequestParams :: "inputs \<Rightarrow> containerOverride option \<Rightarrow> runTaskParams" where
  "taskRequestParams inp ov =
     \<lparr>rtCount = 1,
      rtCluster = cluster inp,
      rtTaskDefinition = taskDefinition inp,
      rtLaunchType = lit ''FARGATE'',
      rtSubnets = subnets inp,
      rtAssignPublicIp = assignPublicIp inp,
      rtSecurityGroups = securityGroups inp,
      rtOverrides = (case ov of None \<Rightarrow> None | Some v \<Rightarrow> Some [v])\<rparr>"

text \<open>
  Lines 59--118; the value is \<open>(taskArn, taskId)\<close>. \<^verbatim>\<open>task.tasks[0].taskArn\<close> on an
  empty \<^verbatim>\<open>tasks\<close> is a TypeError.
\<close>

definition launch :: "inputs \<Rightarrow> env \<Rightarrow> (jsstring \<times> jsstring) step" where
  "launch inp e =
     bind (lift (buildOverrides (overrideContainer inp) (overrideContainerCommand inp)
                   (overrideContainerEnvironment inp))) (\<lambda>ov.
     bind (emit (SendRunTask (taskRequestParams inp ov))) (\<lambda>_.
     bind (lift (runTask e)) (\<lambda>tasks.
       case tasks of
         [] \<Rightarrow> throw (TypeError (lit ''Cannot read properties of undefined (reading 'taskArn')''))
       | taskArn # _ \<Rightarrow>
           bind (emit (SetOutput (lit ''task-arn'') taskArn)) (\<lambda>_.
           bind (emit (SetOutput (lit ''task-id'') (taskIdOf taskArn))) (\<lambda>_.
           bind (emit (Info (lit ''Starting Task with ARN: '' @ taskArn @ [0x0A]))) (\<lambda>_.
           ret (taskArn, taskIdOf taskArn)))))))"

section \<open>State Waiter (lines 120--137)\<close>

text \<open>One \<^verbatim>\<open>await ecs.waitFor(name, {cluster, tasks: [taskArn], $waiter})\<close>.\<close>

definition awaitWaiter :: "inputs \<Rightarrow> env \<Rightarrow> jsstring \<Rightarrow> waiterName \<Rightarrow> unit step" where
  "awaitWaiter inp e taskArn w =
     (let cfg = \<lparr>delay = 6, maxAttempts = taskStoppedWaitForMaxAttempts inp\<rparr> in
      bind (emit (WaitFor w (cluster inp) taskArn cfg)) (\<lambda>_.
      case waitFor e w cfg of (ws, r) \<Rightarrow> (map (Waiter w) ws, r)))"

definition waits :: "inputs \<Rightarrow> env \<Rightarrow> jsstring \<Rightarrow> unit step" where
  "waits inp e taskArn =
     bind (awaitWaiter inp e taskArn TasksRunning) (\<lambda>_.
     awaitWaiter inp e taskArn TasksStopped)"

section \<open>Log Tailer (lines 13--27 and 139--189)\<close>

text \<open>
  \<^verbatim>\<open>pollLogEvents(logGroupName, logStreamName, startTime)\<close> returns an async arrow
  function that has captured its three arguments; nothing assigns to them afterwards.
\<close>

definition pollLogEvents :: "jsstring \<Rightarrow> jsstring \<Rightarrow> nat \<Rightarrow> getLogEvents" where
  "pollLogEvents g s t = \<lparr>logGroupName = g, logStreamName = s, startTime = t\<rparr>"

text \<open>
  Calling that function once (lines 14--26), against a log service \<open>send\<close>: the request is
  sent; the events of the answer are printed, or the error is printed and swallowed.
\<close>

definition invoke :: "getLogEvents \<Rightarrow> (getLogEvents \<Rightarrow> error + logEvent list) \<Rightarrow> unit step" where
  "invoke request send =
     bind (emit (SendGetLogEvents request)) (\<lambda>_.
     case send request of
       Inr events \<Rightarrow> emit (ConsoleLog events)
     | Inl err \<Rightarrow> emit (ConsoleError (lit ''Error fetching log events'') err))"

text \<open>
  \<^verbatim>\<open>logFilterStream.on(...)\<close> and \<^verbatim>\<open>logFilterStream.close()\<close>: \<^verbatim>\<open>logFilterStream\<close> is
  the function \<^verbatim>\<open>pollLogEvents\<close> returned; a function object has no property \<^verbatim>\<open>on\<close>
  or \<^verbatim>\<open>close\<close>, and calling \<^verbatim>\<open>undefined\<close> is a TypeError.
\<close>

definition streamOn :: "getLogEvents \<Rightarrow> unit step" where
  "streamOn p = throw (TypeError (lit ''logFilterStream.on is not a function''))"

definition streamClose :: "getLogEvents \<Rightarrow> unit step" where
  "streamClose p = throw (TypeError (lit ''logFilterStream.close is not a function''))"

text \<open>\<^verbatim>\<open>parts.join('/')\<close>: an \<^verbatim>\<open>undefined\<close> element is joined as the empty string.\<close>

fun joinWith :: "jschar \<Rightarrow> jsstring option list \<Rightarrow> jsstring" where
  "joinWith c [] = []"
| "joinWith c [x] = (case x of None \<Rightarrow> [] | Some s \<Rightarrow> s)"
| "joinWith c (x # y # ys) = (case x of None \<Rightarrow> [] | Some s \<Rightarrow> s) @ [c] @ joinWith c (y # ys)"

text \<open>
  \<^verbatim>\<open>logStreamName\<close> of line 160; reading a key of an \<^verbatim>\<open>undefined\<close> \<^verbatim>\<open>options\<close> is a
  TypeError.
\<close>

definition logStreamNameOf :: "container \<Rightarrow> logConfiguration \<Rightarrow> jsstring \<Rightarrow> error + jsstring" where
  "logStreamNameOf c lc taskId =
     (case options lc of
        None \<Rightarrow> Inl (TypeError (lit ''Cannot read properties of undefined (reading 'awslogs-stream-prefix')''))
      | Some opts \<Rightarrow>
          Inr (joinWith slash [map_of opts (lit ''awslogs-stream-prefix''), Some (cname c), Some taskId]))"

text \<open>
  The callback of \<^verbatim>\<open>some\<close> (lines 150--178) over the containers left to visit; the
  value is \<^verbatim>\<open>logFilterStream\<close>. \<^verbatim>\<open>some\<close> stops at the first container for which the
  callback returns \<^verbatim>\<open>true\<close>; \<^verbatim>\<open>false\<close> (line 155) and \<^verbatim>\<open>undefined\<close> (falling off the
  end) both go on to the next container.
\<close>

fun someContainer :: "inputs \<Rightarrow> env \<Rightarrow> jsstring \<Rightarrow> container list \<Rightarrow> getLogEvents option step" where
  "someContainer inp e taskId [] = ret None"
| "someContainer inp e taskId (c # cs) =
     (if overrideContainer inp \<noteq> [] \<and> cname c \<noteq> overrideContainer inp
      then someContainer inp e taskId cs
      else
        (case logConfig c of
           None \<Rightarrow> someContainer inp e taskId cs
         | Some lc \<Rightarrow>
             if logDriver lc = lit ''awslogs'' then
               bind (lift (logStreamNameOf c lc taskId)) (\<lambda>logStreamName.
               bind (emit (PollLogEvents (lit ''log-group-name'') (lit ''log-stream-name'')
                             (now e div 1000))) (\<lambda>_.
               (let logFilterStream =
                      pollLogEvents (lit ''log-group-name'') (lit ''log-stream-name'')
                        (now e div 1000)
                in bind (streamOn logFilterStream) (\<lambda>_.
                   bind (streamOn logFilterStream) (\<lambda>_.
                   ret (Some logFilterStream))))))
             else someContainer inp e taskId cs))"

text \<open>Lines 139--180.\<close>

definition tailer :: "inputs \<Rightarrow> env \<Rightarrow> jsstring \<Rightarrow> getLogEvents option step" where
  "tailer inp e taskId =
     (if tailLogs inp then
        bind (emit (DescribeTaskDefinition (taskDefinition inp))) (\<lambda>_.
        bind (lift (describeTaskDefinition e)) (\<lambda>taskDef.
          case taskDef of
            None \<Rightarrow> ret None
          | Some td \<Rightarrow>
              (case containerDefinitions td of
                 None \<Rightarrow> ret None
               | Some cs \<Rightarrow> someContainer inp e taskId cs)))
      else ret None)"

text \<open>
  Lines 182--189. \<^verbatim>\<open>logOutput\<close> is still \<^verbatim>\<open>''\<close>: only the \<^verbatim>\<open>data\<close> handler of
  line 170 appends to it.
\<close>

definition closeStream :: "getLogEvents option \<Rightarrow> unit step" where
  "closeStream logFilterStream =
     (case logFilterStream of
        None \<Rightarrow> ret ()
      | Some p \<Rightarrow>
          bind (streamClose p) (\<lambda>_. emit (SetOutput (lit ''log-output'') [])))"

section \<open>Result Reconciler (lines 191--200)\<close>

definition consoleHint :: "inputs \<Rightarrow> env \<Rightarrow> jsstring \<Rightarrow> jsstring" where
  "consoleHint inp e taskId =
     lit ''Task failed, see details on Amazon ECS console: https://console.aws.amazon.com/ecs/home?region=''
     @ region e @ lit ''#/clusters/'' @ cluster inp @ lit ''/tasks/'' @ taskId @ lit ''/details''"

definition reconcile :: "inputs \<Rightarrow> env \<Rightarrow> jsstring \<Rightarrow> jsstring \<Rightarrow> unit step" where
  "reconcile inp e taskArn taskId =
     bind (emit (SendDescribeTasks (cluster inp) taskArn)) (\<lambda>_.
     bind (lift (describeTasks e)) (\<lambda>tasks.
       case tasks of
         [] \<Rightarrow> throw (TypeError (lit ''Cannot read properties of undefined (reading 'containers')''))
       | t # _ \<Rightarrow>
           (case containers t of
              [] \<Rightarrow> throw (TypeError (lit ''Cannot read properties of undefined (reading 'exitCode')''))
            | c # _ \<Rightarrow>
                if exitCode c \<noteq> Some 0 then
                  bind (emit (Info (consoleHint inp e taskId))) (\<lambda>_.
                  emit (SetFailed (stoppedReason t)))
                else ret ())))"

section \<open>\<^verbatim>\<open>main\<close> (lines 6--205)\<close>

definition body :: "inputs \<Rightarrow> env \<Rightarrow> unit step" where
  "body inp e =
     bind (launch inp e) (\<lambda>(taskArn, taskId).
     bind (waits inp e taskArn) (\<lambda>_.
     bind (tailer inp e taskId) (\<lambda>logFilterStream.
     bind (closeStream logFilterStream) (\<lambda>_.
     reconcile inp e taskArn taskId))))"

text \<open>The \<^verbatim>\<open>catch\<close> of line 201 reports the message of whatever was thrown.\<close>

definition main :: "inputs \<Rightarrow> env \<Rightarrow> event list" where
  "main inp e =
     (case body inp e of
        (tr, Inl err) \<Rightarrow> tr @ [SetFailed (Some (message err))]
      | (tr, Inr _) \<Rightarrow> tr)"

text \<open>
  \<^verbatim>\<open>core.setFailed\<close> is the one call that makes the invocation fail.
\<close>

fun isSetFailed :: "event \<Rightarrow> bool" where
  "isSetFailed (SetFailed m) = True"
| "isSetFailed _ = False"

definition failed :: "event list \<Rightarrow> bool" where
  "failed tr = list_ex isSetFailed tr"

section \<open>The client built at line 9\<close>

text \<open>
  Line 3 takes \<^verbatim>\<open>ECSClient\<close> from the package \<^verbatim>\<open>@aws-sdk/client-ecs\<close>, the modular
  client of version 3 of the SDK, and line 9 builds \<^verbatim>\<open>ecs\<close> from it. That client
  has \<^verbatim>\<open>send\<close>; \<^verbatim>\<open>waitFor\<close> is a method of the service object of version 2. So
  \<^verbatim>\<open>ecs.waitFor\<close> is \<^verbatim>\<open>undefined\<close>, and the call of line 122 is a TypeError before
  anything is polled. \<open>shippedClient\<close> gives an environment that answer.
\<close>

definition missingWaitFor :: "waiterName \<Rightarrow> waiterConfig \<Rightarrow> waiterEvent list \<times> (error + unit)" where
  "missingWaitFor w cfg = ([], Inl (TypeError (lit ''ecs.waitFor is not a function'')))"

definition shippedClient :: "env \<Rightarrow> env" where
  "shippedClient e = e\<lparr>waitFor := missingWaitFor\<rparr>"

section \<open>The scan of the command, read front to back\<close>

text \<open>
  What \<open>mapLoop\<close> leaves in the array, by recursion on the lines still to visit: a line
  that ends with the marker and has a successor is replaced by \<^verbatim>\<open>null\<close> and handed,
  without the marker, to the successor; the last line only loses its marker. Lemma
  \<open>mapLoop_foldMerge\<close> proves that the loop over the indices computes this.
\<close>

fun foldMerge :: "jsstring list \<Rightarrow> slot list" where
  "foldMerge [] = []"
| "foldMerge [x] = [Str (replaceMarker x)]"
| "foldMerge (x # y # ys) =
     (if endsWith x backslash then Null # foldMerge ((butlast x @ y) # ys)
      else Str x # foldMerge (y # ys))"

definition tokens :: "jsstring list \<Rightarrow> jsstring list" where
  "tokens xs = slotStrings (filter truthy (foldMerge xs))"

section \<open>One invocation, for the examples\<close>

definition exampleInputs :: inputs where
  "exampleInputs =
     \<lparr>cluster = lit ''prod'', taskDefinition = lit ''job:7'',
      subnets = [lit ''subnet-1''], securityGroups = [lit ''sg-1''],
      tailLogs = False, assignPublicIp = lit ''DISABLED'',
      overrideContainer = lit ''app'',
      overrideContainerCommand = [lit ''echo'', lit ''hel'' @ [backslash], lit ''lo''],
      overrideContainerEnvironment = [lit ''KEY=a=b''],
      taskStoppedWaitForMaxAttempts = 3\<rparr>"

definition exampleArn :: jsstring where
  "exampleArn = lit ''arn:aws:ecs:eu-west-1:123456789012:task/prod/abc123''"

definition exampleLogConfiguration :: logConfiguration where
  "exampleLogConfiguration =
     \<lparr>logDriver = lit ''awslogs'',
      options = Some [(lit ''awslogs-group'', lit ''/ecs/job''),
                      (lit ''awslogs-stream-prefix'', lit ''ecs'')]\<rparr>"

definition exampleContainer :: container where
  "exampleContainer = \<lparr>cname = lit ''app'', logConfig = Some exampleLogConfiguration\<rparr>"

definition exampleEnv :: env where
  "exampleEnv =
     \<lparr>runTask = Inr [exampleArn],
      waitFor = (\<lambda>w cfg. ([Poll], Inr ())),
      describeTaskDefinition = Inr (Some \<lparr>containerDefinitions = Some [exampleContainer]\<rparr>),
      describeTasks =
        Inr [\<lparr>containers = [\<lparr>exitCode = Some 0\<rparr>],
              stoppedReason = Some (lit ''Essential container in task exited'')\<rparr>],
      now = 1700000000999,
      region = lit ''undefined''\<rparr>"

text \<open>The same invocation with log tailing requested.\<close>

definition tailInputs :: inputs where
  "tailInputs = exampleInputs\<lparr>tailLogs := True\<rparr>"

text \<open>A poller as line 163 creates it, and a log service that fails.\<close>

definition examplePoller :: getLogEvents where
  "examplePoller = pollLogEvents (lit ''log-group-name'') (lit ''log-stream-name'') 1700000000"

definition failingLogService :: "getLogEvents \<Rightarrow> error + logEvent list" where
  "failingLogService request = Inl (ServiceError (lit ''ThrottlingException''))"

fun isPollLogEvents :: "event \<Rightarrow> bool" where
  "isPollLogEvents (PollLogEvents g s t) = True"
| "isPollLogEvents _ = False"

text \<open>
  The containers that the callback of \<^verbatim>\<open>some\<close> passes over: another name than the
  override (line 154), or no \<open>awslogs\<close> log configuration (line 159).
\<close>

definition passedOver :: "inputs \<Rightarrow> container \<Rightarrow> bool" where
  "passedOver inp c =
     ((overrideContainer inp \<noteq> [] \<and> cname c \<noteq> overrideContainer inp)
      \<or> (case logConfig c of None \<Rightarrow> True | Some lc \<Rightarrow> logDriver lc \<noteq> lit ''awslogs''))"

section \<open>The command: the loop over the indices and the scan agree\<close>

lemma mergeCallback_last:
  "mergeCallback (length D) (D @ [Str x]) = Inr (D @ [Str (replaceMarker x)])"
  by (simp add: mergeCallback_def replaceMarker_def Let_def)

lemma mergeCallback_merge:
  "endsWith x backslash \<Longrightarrow>
   mergeCallback (length D) (D @ Str x # Str y # vs) = Inr (D @ Null # Str (butlast x @ y) # vs)"
  by (simp add: mergeCallback_def replaceMarker_def Let_def nth_append list_update_append)

lemma mergeCallback_keep:
  "\<not> endsWith x backslash \<Longrightarrow>
   mergeCallback (length D) (D @ Str x # vs) = Inr (D @ Str x # vs)"
  by (simp add: mergeCallback_def)

lemma mapLoop_done: "mapLoop (length arr) (length arr) arr = Inr arr"
  by (subst mapLoop.simps) simp

lemma mapLoop_foldMerge:
  "k = length D \<Longrightarrow> len = k + length t \<Longrightarrow>
   mapLoop k len (D @ map Str t) = Inr (D @ foldMerge t)"
proof (induction t arbitrary: D k rule: foldMerge.induct)
  case 1
  then show ?case using mapLoop_done [of D] by simp
next
  case (2 x)
  have "mapLoop k len (D @ [Str x]) = mapLoop (k + 1) len (D @ [Str (replaceMarker x)])"
    using 2 by (subst mapLoop.simps) (simp add: mergeCallback_last)
  also have "\<dots> = Inr (D @ [Str (replaceMarker x)])"
    using 2 mapLoop_done [of "D @ [Str (replaceMarker x)]"] by simp
  finally show ?case by simp
next
  case (3 x y ys)
  show ?case
  proof (cases "endsWith x backslash")
    case True
    have "mapLoop k len (D @ map Str (x # y # ys))
          = mapLoop (k + 1) len ((D @ [Null]) @ map Str ((butlast x @ y) # ys))"
      using 3(3,4) True by (subst mapLoop.simps) (simp add: mergeCallback_merge)
    also have "\<dots> = Inr ((D @ [Null]) @ foldMerge ((butlast x @ y) # ys))"
      using 3(3,4) by (intro "3.IH"(1) True) simp_all
    finally show ?thesis using True by simp
  next
    case False
    have "mapLoop k len (D @ map Str (x # y # ys))
          = mapLoop (k + 1) len ((D @ [Str x]) @ map Str (y # ys))"
      using 3(3,4) False by (subst mapLoop.simps) (simp add: mergeCallback_keep)
    also have "\<dots> = Inr ((D @ [Str x]) @ foldMerge (y # ys))"
      using 3(3,4) by (intro "3.IH"(2) False) simp_all
    finally show ?thesis using False by simp
  qed
qed

text \<open>
  In particular the loop never meets \<^verbatim>\<open>null\<close>: it writes \<^verbatim>\<open>null\<close> only behind itself,
  and \<open>parsedCommand\<close> always has a value.
\<close>

lemma parsedCommand_tokens: "parsedCommand xs = Inr (tokens xs)"
  using mapLoop_foldMerge [where D = "[]" and k = 0 and len = "length xs" and t = xs]
  by (simp add: parsedCommand_def tokens_def)

lemma endsWith_snoc [simp]: "endsWith (a @ [c]) c" "endsWith (p @ a @ [c]) c"
  by (simp_all add: endsWith_def)

lemma butlast_append_snoc [simp]: "butlast (p @ a @ [c]) = p @ a"
  by (simp add: butlast_append)

lemma foldMerge_no_marker:
  "\<forall>x\<in>set xs. \<not> endsWith x backslash \<Longrightarrow> foldMerge xs = map Str xs"
  by (induction xs rule: foldMerge.induct) (simp_all add: replaceMarker_def)

lemma slotStrings_truthy_Str:
  "slotStrings (filter truthy (map Str xs)) = filter (\<lambda>x. x \<noteq> []) xs"
  by (induction xs) simp_all

lemma slotStrings_append: "slotStrings (us @ vs) = slotStrings us @ slotStrings vs"
  by (induction us rule: slotStrings.induct) simp_all

lemma tokens_no_marker:
  "\<forall>x\<in>set xs. \<not> endsWith x backslash \<Longrightarrow> tokens xs = filter (\<lambda>x. x \<noteq> []) xs"
  by (simp add: tokens_def foldMerge_no_marker slotStrings_truthy_Str)

lemma tokens_merge:
  "tokens (xs @ (a @ [backslash]) # b # ys) = tokens (xs @ (a @ b) # ys)"
proof (induction "length xs" arbitrary: xs a)
  case 0
  then show ?case by (simp add: tokens_def)
next
  case (Suc n)
  then obtain x xs' where xs: "xs = x # xs'" and n: "n = length xs'"
    by (cases xs) auto
  show ?case
  proof (cases xs')
    case Nil
    then show ?thesis using xs by (simp add: tokens_def)
  next
    case (Cons y zs)
    show ?thesis
    proof (cases "endsWith x backslash")
      case True
      have "tokens (((butlast x @ y) # zs) @ (a @ [backslash]) # b # ys)
            = tokens (((butlast x @ y) # zs) @ (a @ b) # ys)"
        using n Cons by (intro Suc.hyps(1)) simp
      then show ?thesis using True xs Cons by (simp add: tokens_def)
    next
      case False
      have "tokens (xs' @ (a @ [backslash]) # b # ys) = tokens (xs' @ (a @ b) # ys)"
        using n by (intro Suc.hyps(1)) simp
      then show ?thesis using False xs Cons by (simp add: tokens_def)
    qed
  qed
qed

text \<open>
  A sequence is cut after a line that is not empty and does not end with the marker:
  nothing is carried across.
\<close>

lemma foldMerge_append:
  "xs = [] \<or> (last xs \<noteq> [] \<and> last (last xs) \<noteq> backslash) \<Longrightarrow> ys \<noteq> [] \<Longrightarrow>
   foldMerge (xs @ ys) = foldMerge xs @ foldMerge ys"
proof (induction xs rule: foldMerge.induct)
  case 1
  then show ?case by simp
next
  case (2 x)
  then obtain y zs where "ys = y # zs" by (cases ys) auto
  with 2 show ?case by (simp add: endsWith_def replaceMarker_def)
next
  case (3 x y zs)
  show ?case
  proof (cases "endsWith x backslash")
    case True
    have "last ((butlast x @ y) # zs) \<noteq> [] \<and> last (last ((butlast x @ y) # zs)) \<noteq> backslash"
      using 3(3) by auto
    then show ?thesis using 3 True by simp
  next
    case False
    have "last (y # zs) \<noteq> [] \<and> last (last (y # zs)) \<noteq> backslash"
      using 3(3) by auto
    then show ?thesis using 3 False by simp
  qed
qed

lemma tokens_last_marker:
  "xs = [] \<or> (last xs \<noteq> [] \<and> last (last xs) \<noteq> backslash) \<Longrightarrow>
   tokens (xs @ [a @ [backslash]]) = tokens xs @ (if a = [] then [] else [a])"
  by (simp add: tokens_def foldMerge_append slotStrings_append)
     (simp add: replaceMarker_def endsWith_def)

lemma replaceMarker_once:
  assumes "a \<noteq> []" "last a \<noteq> backslash"
  shows "replaceMarker (p @ a @ [backslash]) = p @ a" "replaceMarker (p @ a) = p @ a"
    "replaceMarker (a @ [backslash]) = a" "replaceMarker a = a"
  using assms by (simp_all add: replaceMarker_def endsWith_def)

lemma foldMerge_snoc_strip:
  "a \<noteq> [] \<Longrightarrow> last a \<noteq> backslash \<Longrightarrow>
   foldMerge (xs @ [a @ [backslash]]) = foldMerge (xs @ [a])"
proof (induction "length xs" arbitrary: xs a)
  case 0
  then show ?case by (simp add: replaceMarker_once)
next
  case (Suc n)
  then obtain x xs' where xs: "xs = x # xs'" and n: "n = length xs'"
    by (cases xs) auto
  show ?case
  proof (cases xs')
    case Nil
    show ?thesis using xs Nil Suc.prems by (simp add: replaceMarker_once)
  next
    case (Cons y zs)
    show ?thesis
    proof (cases "endsWith x backslash")
      case True
      have "foldMerge (((butlast x @ y) # zs) @ [a @ [backslash]])
            = foldMerge (((butlast x @ y) # zs) @ [a])"
        using n Cons Suc.prems by (intro Suc.hyps(1)) simp_all
      then show ?thesis using True xs Cons by simp
    next
      case False
      have "foldMerge (xs' @ [a @ [backslash]]) = foldMerge (xs' @ [a])"
        using n Suc.prems by (intro Suc.hyps(1)) simp_all
      then show ?thesis using False xs Cons by simp
    qed
  qed
qed

lemma lit_simps:
  "lit [] = []" "lit (c # cs) = word_of_nat (of_char c) # lit cs"
  by (simp_all add: lit_def)

section \<open>Override Builder: the claims about the command\<close>

text \<open>
  Claim C3 says that a command sequence without continuation marker is parsed to itself.
  The comment of line 84 announces a filter of the \<^verbatim>\<open>null\<close> values; the filter of line 85
  keeps the truthy elements, and the empty string is falsy. The sequence \<open>a\<close>, empty
  line, \<open>b\<close> has no marker and is parsed to \<open>a\<close>, \<open>b\<close>: the empty line is lost.
\<close>

theorem parsedCommand_drops_empty_fragment:
  "\<not> endsWith (lit ''a'') backslash \<and> \<not> endsWith [] backslash \<and> \<not> endsWith (lit ''b'') backslash
   \<and> parsedCommand [lit ''a'', [], lit ''b''] = Inr [lit ''a'', lit ''b'']
   \<and> parsedCommand [lit ''a'', [], lit ''b''] \<noteq> Inr [lit ''a'', [], lit ''b'']"
  by (simp add: parsedCommand_tokens tokens_def endsWith_def backslash_def replaceMarker_def
        lit_simps)

text \<open>
  What line 85 does to a sequence without marker, in general: the empty lines go, the
  others stay in their order.
\<close>

lemma parsedCommand_no_marker:
  assumes "\<forall>x\<in>set xs. \<not> endsWith x backslash"
  shows "parsedCommand xs = Inr (filter (\<lambda>x. x \<noteq> []) xs)
         \<and> (parsedCommand xs = Inr xs \<longleftrightarrow> [] \<notin> set xs)"
proof -
  have "(filter (\<lambda>x. x \<noteq> []) xs = xs) = ([] \<notin> set xs)"
    by (auto simp: filter_id_conv)
  then show ?thesis
    using assms by (simp add: parsedCommand_tokens tokens_no_marker)
qed

text \<open>
  Claim C4: wherever a line that ends with the continuation marker is followed by another
  line, the parsed command is that of the sequence in which the two lines are one line,
  the first without its marker directly followed by the second: the first line is gone,
  nothing is inserted, and the lines before and after stay where they are. The example
  of the specification (\<open>echo\<close>, then \<open>hel\<close> with the marker, then \<open>lo\<close>) is parsed to
  \<open>echo\<close>, \<open>hello\<close>.
\<close>

theorem parsedCommand_merge:
  "parsedCommand (xs @ (a @ [backslash]) # b # ys) = parsedCommand (xs @ (a @ b) # ys)
   \<and> parsedCommand [lit ''echo'', lit ''hel'' @ [backslash], lit ''lo'']
       = Inr [lit ''echo'', lit ''hello'']"
proof -
  have "tokens [lit ''echo'', lit ''hel'' @ [backslash], lit ''lo''] = [lit ''echo'', lit ''hello'']"
    by (simp add: tokens_def endsWith_def backslash_def replaceMarker_def lit_simps)
  then show ?thesis
    by (simp add: parsedCommand_tokens tokens_merge)
qed

text \<open>
  Claim C10: when the last line ends with the continuation marker, and the line before it
  (if there is one) hands nothing over, being non-empty and without marker, the last line
  loses its marker and is merged with nothing: the parsed command is that of the lines
  before, followed by the last line without its marker, or by nothing when the last line
  was the marker alone, since the filter drops the empty string. When more than the
  marker is left and that rest does not end with a second marker, this holds after any
  lines: the result is that of the same sequence with the last line written without its
  marker.
\<close>

theorem parsedCommand_last_marker:
  "(xs = [] \<or> (last xs \<noteq> [] \<and> last (last xs) \<noteq> backslash) \<longrightarrow>
      (\<exists>ts. parsedCommand xs = Inr ts
          \<and> parsedCommand (xs @ [a @ [backslash]]) = Inr (ts @ (if a = [] then [] else [a]))))
   \<and> (a \<noteq> [] \<and> last a \<noteq> backslash \<longrightarrow>
        parsedCommand (xs @ [a @ [backslash]]) = parsedCommand (xs @ [a]))"
  by (simp add: parsedCommand_tokens tokens_last_marker)
     (simp add: tokens_def foldMerge_snoc_strip)

theorem parsedCommand_last_marker_witness:
  "last [lit ''sh''] \<noteq> [] \<and> last (last [lit ''sh'']) \<noteq> backslash
   \<and> lit ''ls'' \<noteq> [] \<and> last (lit ''ls'') \<noteq> backslash
   \<and> parsedCommand [lit ''sh''] = Inr [lit ''sh'']
   \<and> parsedCommand [lit ''sh'', lit ''ls'' @ [backslash]] = Inr [lit ''sh'', lit ''ls'']
   \<and> parsedCommand [lit ''sh'', [backslash]] = Inr [lit ''sh'']"
proof -
  have h: "last [lit ''sh''] \<noteq> [] \<and> last (last [lit ''sh'']) \<noteq> backslash"
    by (simp add: backslash_def lit_simps)
  have t: "parsedCommand [lit ''sh''] = Inr [lit ''sh'']"
    by (simp add: parsedCommand_tokens tokens_def endsWith_def backslash_def replaceMarker_def
          lit_simps)
  show ?thesis
    using h t
      parsedCommand_last_marker [of "[lit ''sh'']" "lit ''ls''"]
      parsedCommand_last_marker [of "[lit ''sh'']" "[]"]
    by (simp add: backslash_def lit_simps)
qed

section \<open>Override Builder: the environment\<close>

lemma splitLoop_no_equals: "equals \<notin> set s \<Longrightarrow> splitLoop acc s = [acc @ s]"
  by (induction s arbitrary: acc) auto

lemma splitLoop_first_equals:
  "equals \<notin> set k \<Longrightarrow>
   splitLoop acc (k @ equals # v) =
     (acc @ k) # takeWhile (\<lambda>d. \<not> lineTerminator d) v
       # splitLoop [] (dropWhile (\<lambda>d. \<not> lineTerminator d) v)"
  by (induction k arbitrary: acc) auto

lemma envEntryOf_no_equals:
  "equals \<notin> set x \<Longrightarrow> envEntryOf x = \<lparr>name = Some x, val = None\<rparr>"
  by (simp add: envEntryOf_def splitEquals_def splitLoop_no_equals at_def)

lemma envEntryOf_first_equals:
  "equals \<notin> set k \<Longrightarrow>
   envEntryOf (k @ equals # v) = \<lparr>name = Some k, val = Some (takeWhile (\<lambda>d. \<not> lineTerminator d) v)\<rparr>"
  by (simp add: envEntryOf_def splitEquals_def splitLoop_first_equals at_def)

lemma envEntryOf_whole_value:
  "equals \<notin> set k \<Longrightarrow> \<forall>d\<in>set v. \<not> lineTerminator d \<Longrightarrow>
   envEntryOf (k @ equals # v) = \<lparr>name = Some k, val = Some v\<rparr>"
  by (simp add: envEntryOf_first_equals)

lemma envEntryOf_examples:
  "envEntryOf (lit ''KEY=a=b'') = \<lparr>name = Some (lit ''KEY''), val = Some (lit ''a=b'')\<rparr>"
  "envEntryOf (lit ''KEY='') = \<lparr>name = Some (lit ''KEY''), val = Some []\<rparr>"
  "map envEntryOf [lit ''K=1'', lit ''K=2''] = [\<lparr>name = Some (lit ''K''), val = Some (lit ''1'')\<rparr>, \<lparr>name = Some (lit ''K''), val = Some (lit ''2'')\<rparr>]"
  by (simp_all add: envEntryOf_def splitEquals_def at_def equals_def lineTerminator_def lit_simps)

text \<open>
  Claim C5 says that every fragment is split at its first \<open>=\<close> and that all of the right
  side is the value. The examples of the claim hold (\<open>envEntryOf_examples\<close>), entries are
  neither merged nor dropped (\<open>map\<close>), and the value is the whole right side when that
  contains no line terminator (\<open>envEntryOf_whole_value\<close>). The group \<^verbatim>\<open>(.*)\<close> of line 94
  stops at a line terminator, though: of \<open>K=a\<close>, carriage return, \<open>b\<close> the value is \<open>a\<close>,
  not the right side.
\<close>

theorem envEntryOf_line_terminator:
  "envEntryOf (lit ''K=a'' @ [0x0D] @ lit ''b'') = \<lparr>name = Some (lit ''K''), val = Some (lit ''a'')\<rparr>
   \<and> lit ''a'' \<noteq> lit ''a'' @ [0x0D] @ lit ''b''"
  by (simp add: envEntryOf_def splitEquals_def at_def equals_def lineTerminator_def lit_simps)

section \<open>The steps of \<^verbatim>\<open>main\<close>\<close>

lemma bind_simps [simp]:
  "bind (ret a) f = f a"
  "bind (throw err) f = ([], Inl err)"
  "bind (lift (Inr a)) f = f a"
  "bind (lift (Inl err)) f = ([], Inl err)"
  "bind (emit ev) g = (ev # fst (g ()), snd (g ()))"
  by (simp_all add: bind_def ret_def throw_def lift_def emit_def split: prod.splits)

lemma bind_Inl: "snd m = Inl err \<Longrightarrow> bind m f = (fst m, Inl err)"
  by (cases m) (simp add: bind_def)

lemma bind_Inr: "snd m = Inr a \<Longrightarrow> bind m f = (fst m @ fst (f a), snd (f a))"
  by (cases m) (simp add: bind_def split: prod.splits)

lemma buildOverrides_total: "\<exists>ov. buildOverrides c cmd envs = Inr ov"
  by (simp add: buildOverrides_def parsedCommand_tokens)

lemma launch_events:
  "ev \<in> set (fst (launch inp e)) \<Longrightarrow>
   (\<exists>p. ev = SendRunTask p) \<or> (\<exists>n v. ev = SetOutput n v) \<or> (\<exists>m. ev = Info m)"
  using buildOverrides_total [of "overrideContainer inp" "overrideContainerCommand inp"
      "overrideContainerEnvironment inp"]
  by (cases "runTask e") (auto simp: launch_def ret_def throw_def split: list.splits)

lemma launch_ok:
  "runTask e = Inr (arn # rest) \<Longrightarrow> snd (launch inp e) = Inr (arn, taskIdOf arn)"
  using buildOverrides_total [of "overrideContainer inp" "overrideContainerCommand inp"
      "overrideContainerEnvironment inp"]
  by (auto simp: launch_def ret_def)

lemma awaitWaiter_eq:
  "awaitWaiter inp e arn w =
     (WaitFor w (cluster inp) arn \<lparr>delay = 6, maxAttempts = taskStoppedWaitForMaxAttempts inp\<rparr>
        # map (Waiter w) (fst (waitFor e w \<lparr>delay = 6, maxAttempts = taskStoppedWaitForMaxAttempts inp\<rparr>)),
      snd (waitFor e w \<lparr>delay = 6, maxAttempts = taskStoppedWaitForMaxAttempts inp\<rparr>))"
  by (simp add: awaitWaiter_def Let_def split: prod.splits)

lemma body_running_timeout:
  assumes "runTask e = Inr (arn # rest)"
    and "snd (waitFor e TasksRunning \<lparr>delay = 6, maxAttempts = taskStoppedWaitForMaxAttempts inp\<rparr>) = Inl err"
  shows "main inp e =
           fst (launch inp e)
           @ WaitFor TasksRunning (cluster inp) arn \<lparr>delay = 6, maxAttempts = taskStoppedWaitForMaxAttempts inp\<rparr>
           # map (Waiter TasksRunning) (fst (waitFor e TasksRunning \<lparr>delay = 6, maxAttempts = taskStoppedWaitForMaxAttempts inp\<rparr>))
           @ [SetFailed (Some (message err))]"
proof -
  have w: "waits inp e arn = (fst (awaitWaiter inp e arn TasksRunning), Inl err)"
    unfolding waits_def using assms(2) by (intro bind_Inl) (simp add: awaitWaiter_eq)
  have "body inp e = (fst (launch inp e) @ fst (awaitWaiter inp e arn TasksRunning), Inl err)"
    unfolding body_def
    by (subst bind_Inr [OF launch_ok [OF assms(1)]]) (simp add: w bind_def)
  then show ?thesis by (simp add: main_def awaitWaiter_eq)
qed

lemma step_proj [simp]:
  "fst (emit ev) = [ev]" "snd (emit ev) = Inr ()"
  "fst (ret a) = []" "snd (ret a) = Inr a"
  "fst (throw err) = []" "snd (throw err) = Inl err"
  by (simp_all add: emit_def ret_def throw_def)

lemma bind_pair [simp]:
  "bind (tr, Inl err) f = (tr, Inl err)"
  "bind (tr, Inr a) f = (tr @ fst (f a), snd (f a))"
  by (simp_all add: bind_def split: prod.splits)

lemma someContainer_events:
  "ev \<in> set (fst (someContainer inp e tid cs)) \<Longrightarrow>
   ev = PollLogEvents (lit ''log-group-name'') (lit ''log-stream-name'') (now e div 1000)"
proof (induction cs)
  case Nil
  then show ?case by (simp add: ret_def)
next
  case (Cons c cs)
  then show ?case
    by (cases "logConfig c")
       (auto simp: streamOn_def logStreamNameOf_def Let_def split: if_splits option.splits)
qed

lemma someContainer_never_armed: "snd (someContainer inp e tid cs) \<noteq> Inr (Some p)"
proof (induction cs)
  case Nil
  then show ?case by (simp add: ret_def)
next
  case (Cons c cs)
  then show ?case
    by (cases "logConfig c")
       (auto simp: streamOn_def logStreamNameOf_def Let_def split: if_splits option.splits)
qed

lemma someContainer_passes:
  "\<forall>c\<in>set pre. passedOver inp c \<Longrightarrow>
   someContainer inp e tid (pre @ cs) = someContainer inp e tid cs"
  by (induction pre) (auto simp: passedOver_def split: option.splits)

text \<open>
  No container with a matching name and \<open>awslogs\<close>: nothing is armed and nothing thrown.
  Otherwise the first such container is the one the poller is created for.
\<close>

lemma someContainer_none:
  "\<forall>c\<in>set cs. passedOver inp c \<Longrightarrow> someContainer inp e tid cs = ret None"
  using someContainer_passes [of cs inp e tid "[]"] by simp

lemma someContainer_first:
  assumes "\<forall>c\<in>set pre. passedOver inp c" and "\<not> passedOver inp c"
    and "logConfig c = Some lc" and "options lc = Some opts"
  shows "someContainer inp e tid (pre @ c # post) =
           ([PollLogEvents (lit ''log-group-name'') (lit ''log-stream-name'') (now e div 1000)],
            Inl (TypeError (lit ''logFilterStream.on is not a function'')))"
  using assms(2-4)
  by (auto simp: someContainer_passes [OF assms(1)] passedOver_def logStreamNameOf_def
        streamOn_def Let_def)

lemma tailer_events:
  "ev \<in> set (fst (tailer inp e tid)) \<Longrightarrow>
   ev = DescribeTaskDefinition (taskDefinition inp)
   \<or> ev = PollLogEvents (lit ''log-group-name'') (lit ''log-stream-name'') (now e div 1000)"
  using someContainer_events [of ev inp e tid]
  by (cases "describeTaskDefinition e")
     (auto simp: tailer_def ret_def split: if_splits option.splits)

lemma waits_events:
  "ev \<in> set (fst (waits inp e arn)) \<Longrightarrow>
   (\<exists>w c a cfg. ev = WaitFor w c a cfg) \<or> (\<exists>w x. ev = Waiter w x)"
  by (auto simp: waits_def awaitWaiter_eq bind_def split: sum.splits prod.splits)

lemma waits_ok:
  assumes "snd (waits inp e arn) = Inr u"
  shows "WaitFor TasksStopped (cluster inp) arn
           \<lparr>delay = 6, maxAttempts = taskStoppedWaitForMaxAttempts inp\<rparr> \<in> set (fst (waits inp e arn))
         \<and> snd (waitFor e TasksStopped \<lparr>delay = 6, maxAttempts = taskStoppedWaitForMaxAttempts inp\<rparr>) = Inr ()"
  using assms
  by (auto simp: waits_def awaitWaiter_eq bind_def split: sum.splits prod.splits)

lemma reconcile_events:
  "ev \<in> set (fst (reconcile inp e arn tid)) \<Longrightarrow>
   (\<exists>c a. ev = SendDescribeTasks c a) \<or> (\<exists>m. ev = Info m) \<or> (\<exists>m. ev = SetFailed m)"
  by (cases "describeTasks e")
     (auto simp: reconcile_def split: if_splits list.splits)

lemma closeStream_events: "fst (closeStream l) = []"
  by (cases l) (simp_all add: closeStream_def streamClose_def ret_def)


lemma reconcile_described:
  assumes "describeTasks e = Inr (t # ts)" and "containers t = c # cs"
  shows "reconcile inp e arn tid =
           (SendDescribeTasks (cluster inp) arn
              # (if exitCode c = Some 0 then []
                 else [Info (consoleHint inp e tid), SetFailed (stoppedReason t)]),
            Inr ())"
  using assms by (simp add: reconcile_def)

text \<open>The three ways \<^verbatim>\<open>main\<close> can go, up to the end of the log tailer.\<close>

lemma main_cases:
  obtains (launch_failed) err where
      "main inp e = fst (launch inp e) @ [SetFailed (Some (message err))]"
  | (wait_failed) arn err where
      "snd (launch inp e) = Inr (arn, taskIdOf arn)"
      "main inp e = fst (launch inp e) @ fst (waits inp e arn) @ [SetFailed (Some (message err))]"
  | (waited) arn post where
      "snd (launch inp e) = Inr (arn, taskIdOf arn)"
      "snd (waits inp e arn) = Inr ()"
      "main inp e = fst (launch inp e) @ fst (waits inp e arn)
                    @ fst (tailer inp e (taskIdOf arn)) @ post"
      "\<forall>ev\<in>set post. (\<exists>c a. ev = SendDescribeTasks c a) \<or> (\<exists>m. ev = Info m) \<or> (\<exists>m. ev = SetFailed m)"
proof (cases "snd (launch inp e)")
  case (Inl err)
  then have "body inp e = (fst (launch inp e), Inl err)"
    unfolding body_def by (rule bind_Inl)
  then show ?thesis using launch_failed by (simp add: main_def)
next
  case (Inr r)
  obtain arn tid where r: "r = (arn, tid)" by (cases r)
  have tid: "tid = taskIdOf arn"
    using Inr r buildOverrides_total [of "overrideContainer inp" "overrideContainerCommand inp"
        "overrideContainerEnvironment inp"]
    by (cases "runTask e") (auto simp: launch_def ret_def throw_def split: list.splits)
  let ?rest = "bind (waits inp e arn) (\<lambda>_.
     bind (tailer inp e tid) (\<lambda>logFilterStream.
     bind (closeStream logFilterStream) (\<lambda>_.
     reconcile inp e arn tid)))"
  have b: "body inp e = (fst (launch inp e) @ fst ?rest, snd ?rest)"
    unfolding body_def using Inr r by (subst bind_Inr [where a = "(arn, tid)"]) simp_all
  show ?thesis
  proof (cases "snd (waits inp e arn)")
    case (Inl err)
    then have "?rest = (fst (waits inp e arn), Inl err)" by (rule bind_Inl)
    then show ?thesis using wait_failed [of arn err] Inr r tid b by (simp add: main_def)
  next
    case w: (Inr u)
    let ?rest2 = "bind (tailer inp e tid) (\<lambda>logFilterStream.
       bind (closeStream logFilterStream) (\<lambda>_. reconcile inp e arn tid))"
    have r1: "?rest = (fst (waits inp e arn) @ fst ?rest2, snd ?rest2)"
      using w by (subst bind_Inr [where a = u]) simp_all
    have "\<exists>post. ?rest2 = (fst (tailer inp e tid) @ post, snd ?rest2)
            \<and> (\<forall>ev\<in>set post. (\<exists>c a. ev = SendDescribeTasks c a) \<or> (\<exists>m. ev = Info m) \<or> (\<exists>m. ev = SetFailed m))"
    proof (cases "snd (tailer inp e tid)")
      case (Inl err)
      then have "?rest2 = (fst (tailer inp e tid), Inl err)" by (rule bind_Inl)
      then show ?thesis by simp
    next
      case (Inr l)
      let ?rest3 = "bind (closeStream l) (\<lambda>_. reconcile inp e arn tid)"
      have r2: "?rest2 = (fst (tailer inp e tid) @ fst ?rest3, snd ?rest3)"
        using Inr by (subst bind_Inr [where a = l]) simp_all
      have "\<forall>ev\<in>set (fst ?rest3). (\<exists>c a. ev = SendDescribeTasks c a) \<or> (\<exists>m. ev = Info m) \<or> (\<exists>m. ev = SetFailed m)"
        using reconcile_events [of _ inp e arn tid]
        by (cases l) (auto simp: closeStream_def streamClose_def)
      then show ?thesis using r2 by auto
    qed
    then obtain post where p: "?rest2 = (fst (tailer inp e tid) @ post, snd ?rest2)"
      and pe: "\<forall>ev\<in>set post. (\<exists>c a. ev = SendDescribeTasks c a) \<or> (\<exists>m. ev = Info m) \<or> (\<exists>m. ev = SetFailed m)"
      by blast
    have f2: "fst ?rest2 = fst (tailer inp e tid) @ post"
      using p by (metis fst_conv)
    have m: "main inp e = fst (launch inp e) @ fst (waits inp e arn) @ fst (tailer inp e tid) @ post
             @ (case snd ?rest2 of Inl err \<Rightarrow> [SetFailed (Some (message err))] | Inr _ \<Rightarrow> [])"
      using b r1 f2 by (simp add: main_def split: sum.splits)
    have pe': "\<forall>ev\<in>set (post @ (case snd ?rest2 of Inl err \<Rightarrow> [SetFailed (Some (message err))] | Inr _ \<Rightarrow> [])).
                 (\<exists>c a. ev = SendDescribeTasks c a) \<or> (\<exists>m. ev = Info m) \<or> (\<exists>m. ev = SetFailed m)"
      using pe by (auto split: sum.splits)
    show ?thesis
      using waited [of arn "post @ (case snd ?rest2 of Inl err \<Rightarrow> [SetFailed (Some (message err))] | Inr _ \<Rightarrow> [])"]
        Inr r tid w m pe' by simp
  qed
qed




lemma not_failed_phase:
  "filter isSetFailed (fst (launch inp e)) = []"
  "filter isSetFailed (fst (waits inp e arn)) = []"
  "filter isSetFailed (fst (tailer inp e tid)) = []"
  by (auto simp: filter_empty_conv dest!: launch_events waits_events tailer_events)

lemma main_reconciled:
  assumes "runTask e = Inr (arn # rest)"
    and "\<forall>w. snd (waitFor e w \<lparr>delay = 6, maxAttempts = taskStoppedWaitForMaxAttempts inp\<rparr>) = Inr ()"
    and "snd (tailer inp e (taskIdOf arn)) = Inr None"
  shows "main inp e =
           fst (launch inp e) @ fst (waits inp e arn) @ fst (tailer inp e (taskIdOf arn))
           @ fst (reconcile inp e arn (taskIdOf arn))
           @ (case snd (reconcile inp e arn (taskIdOf arn)) of
                Inl err \<Rightarrow> [SetFailed (Some (message err))] | Inr _ \<Rightarrow> [])"
proof -
  have w: "snd (waits inp e arn) = Inr ()"
    using assms(2) by (simp add: waits_def awaitWaiter_eq bind_Inr [where a = "()"])
  have c: "bind (closeStream None) (\<lambda>_. reconcile inp e arn (taskIdOf arn))
           = reconcile inp e arn (taskIdOf arn)"
    by (simp add: closeStream_def)
  have "body inp e =
          (fst (launch inp e) @ fst (waits inp e arn) @ fst (tailer inp e (taskIdOf arn))
             @ fst (reconcile inp e arn (taskIdOf arn)),
           snd (reconcile inp e arn (taskIdOf arn)))"
    unfolding body_def
    by (simp add: bind_Inr [OF launch_ok [OF assms(1)]] bind_Inr [OF w] bind_Inr [OF assms(3)] c)
  then show ?thesis by (simp add: main_def split: sum.splits)
qed

text \<open>
  With a client whose waiters resolve, and a tailer that arms nothing, the reconciler is
  reached: the invocation then fails exactly when the exit code of the first container is
  not 0, with the \<^verbatim>\<open>stoppedReason\<close> of the task passed on as it is.
\<close>

lemma reconciled_outcome:
  assumes "runTask e = Inr (arn # rest)"
    and "\<forall>w. snd (waitFor e w \<lparr>delay = 6, maxAttempts = taskStoppedWaitForMaxAttempts inp\<rparr>) = Inr ()"
    and "snd (tailer inp e (taskIdOf arn)) = Inr None"
    and "describeTasks e = Inr (t # ts)"
    and "containers t = c # cs"
  shows "(failed (main inp e) \<longleftrightarrow> exitCode c \<noteq> Some 0)
         \<and> filter isSetFailed (main inp e)
             = (if exitCode c = Some 0 then [] else [SetFailed (stoppedReason t)])"
proof -
  have f: "filter isSetFailed (main inp e)
           = (if exitCode c = Some 0 then [] else [SetFailed (stoppedReason t)])"
    by (simp add: main_reconciled [OF assms(1-3)] reconcile_described [OF assms(4,5)]
          not_failed_phase)
  have "failed (main inp e) \<longleftrightarrow> filter isSetFailed (main inp e) \<noteq> []"
    by (simp add: failed_def list_ex_iff filter_empty_conv)
  then show ?thesis using f by simp
qed

section \<open>The run with the client of line 9\<close>

lemma launch_shipped: "launch inp (shippedClient e) = launch inp e"
  by (simp add: launch_def shippedClient_def)

text \<open>
  After a successful launch the run is over at line 122: no poll, no stopped-wait, and
  the message of the TypeError is what the invocation fails with.
\<close>

lemma shipped_run:
  assumes "runTask e = Inr (arn # rest)"
  shows "main inp (shippedClient e) =
           fst (launch inp e)
           @ [WaitFor TasksRunning (cluster inp) arn
                \<lparr>delay = 6, maxAttempts = taskStoppedWaitForMaxAttempts inp\<rparr>,
              SetFailed (Some (lit ''ecs.waitFor is not a function''))]"
proof -
  have r: "runTask (shippedClient e) = Inr (arn # rest)"
    using assms by (simp add: shippedClient_def)
  have w: "snd (waitFor (shippedClient e) TasksRunning
                  \<lparr>delay = 6, maxAttempts = taskStoppedWaitForMaxAttempts inp\<rparr>)
           = Inl (TypeError (lit ''ecs.waitFor is not a function''))"
    and f: "fst (waitFor (shippedClient e) TasksRunning
                  \<lparr>delay = 6, maxAttempts = taskStoppedWaitForMaxAttempts inp\<rparr>) = []"
    by (simp_all add: shippedClient_def missingWaitFor_def)
  show ?thesis
    using body_running_timeout [OF r w] f by (simp add: launch_shipped)
qed

text \<open>Whatever the services answer, the invocation does not succeed.\<close>

lemma shipped_always_fails: "failed (main inp (shippedClient e))"
proof (cases inp "shippedClient e" rule: main_cases)
  case (launch_failed err)
  then show ?thesis by (simp add: failed_def)
next
  case (wait_failed arn err)
  then show ?thesis by (simp add: failed_def)
next
  case (waited arn post)
  have "snd (waitFor (shippedClient e) TasksStopped
               \<lparr>delay = 6, maxAttempts = taskStoppedWaitForMaxAttempts inp\<rparr>) = Inr ()"
    using waits_ok [OF waited(2)] by simp
  then show ?thesis by (simp add: shippedClient_def missingWaitFor_def)
qed

lemma example_shipped_run:
  "main exampleInputs (shippedClient exampleEnv) =
     fst (launch exampleInputs exampleEnv)
     @ [WaitFor TasksRunning (lit ''prod'') exampleArn \<lparr>delay = 6, maxAttempts = 3\<rparr>,
        SetFailed (Some (lit ''ecs.waitFor is not a function''))]"
proof -
  have r: "runTask exampleEnv = Inr (exampleArn # [])"
    by (simp add: exampleEnv_def)
  show ?thesis
    by (simp add: shipped_run [OF r]) (simp add: exampleInputs_def)
qed

text \<open>
  Claim C1 says that a running-wait that never sees the task running polls exactly
  \<open>maxAttempts\<close> times and fails with \<open>WaitTimeout\<close>. With \<open>maxAttempts\<close> 3, the run reaches
  the call of the running-wait and fails there with \<open>ecs.waitFor is not a function\<close>:
  there is no poll at all. (The stopped-wait is not attempted, as the claim says.)
\<close>

theorem running_wait_not_a_function:
  "main exampleInputs (shippedClient exampleEnv) =
     fst (launch exampleInputs exampleEnv)
     @ [WaitFor TasksRunning (lit ''prod'') exampleArn \<lparr>delay = 6, maxAttempts = 3\<rparr>,
        SetFailed (Some (lit ''ecs.waitFor is not a function''))]
   \<and> filter (\<lambda>ev. ev = Waiter TasksRunning Poll) (main exampleInputs (shippedClient exampleEnv)) = []"
proof -
  have "filter (\<lambda>ev. ev = Waiter TasksRunning Poll) (fst (launch exampleInputs exampleEnv)) = []"
    by (auto simp: filter_empty_conv dest!: launch_events)
  then show ?thesis by (simp add: example_shipped_run)
qed

text \<open>
  Claim C2 says that the invocation succeeds exactly when the exit code of the first
  container is 0. The task of the example stops with exit code 0; the run never gets to
  describe it, and the invocation fails, with \<open>ecs.waitFor is not a function\<close>.
\<close>

theorem exit_code_zero_reported_failed:
  "describeTasks (shippedClient exampleEnv) =
     Inr [\<lparr>containers = [\<lparr>exitCode = Some 0\<rparr>],
           stoppedReason = Some (lit ''Essential container in task exited'')\<rparr>]
   \<and> failed (main exampleInputs (shippedClient exampleEnv))
   \<and> filter isSetFailed (main exampleInputs (shippedClient exampleEnv))
       = [SetFailed (Some (lit ''ecs.waitFor is not a function''))]"
proof -
  have d: "describeTasks (shippedClient exampleEnv) =
     Inr [\<lparr>containers = [\<lparr>exitCode = Some 0\<rparr>],
           stoppedReason = Some (lit ''Essential container in task exited'')\<rparr>]"
    by (simp add: shippedClient_def exampleEnv_def)
  have f: "filter isSetFailed (main exampleInputs (shippedClient exampleEnv))
           = [SetFailed (Some (lit ''ecs.waitFor is not a function''))]"
    by (simp add: example_shipped_run not_failed_phase)
  show ?thesis using d f shipped_always_fails [of exampleInputs exampleEnv] by simp
qed

text \<open>
  The log tailer in \<^verbatim>\<open>main\<close>: no log event is ever requested; the poller is created
  only after the stopped-wait has resolved; and it is created for the placeholder names
  of line 163, whatever line 160 computed.
\<close>

lemma prefix_before_first:
  "xs @ ys = pre @ x # post \<Longrightarrow> x \<notin> set xs \<Longrightarrow> \<exists>zs. pre = xs @ zs"
  by (auto simp: append_eq_append_conv2 append_eq_Cons_conv)


lemma arming_after_stopped_wait:
  assumes "main inp e = pre @ PollLogEvents g s t # post"
  shows "\<exists>c a cfg. WaitFor TasksStopped c a cfg \<in> set pre
           \<and> snd (waitFor e TasksStopped cfg) = Inr ()"
proof (cases inp e rule: main_cases)
  case (launch_failed err)
  have "PollLogEvents g s t \<in> set (main inp e)" using assms by simp
  then show ?thesis
    using launch_failed launch_events [of "PollLogEvents g s t" inp e] by auto
next
  case (wait_failed arn err)
  have "PollLogEvents g s t \<in> set (main inp e)" using assms by simp
  then show ?thesis
    using wait_failed launch_events [of "PollLogEvents g s t" inp e]
      waits_events [of "PollLogEvents g s t" inp e arn] by auto
next
  case (waited arn post')
  have n: "PollLogEvents g s t \<notin> set (fst (launch inp e) @ fst (waits inp e arn))"
    using launch_events [of "PollLogEvents g s t" inp e]
      waits_events [of "PollLogEvents g s t" inp e arn] by auto
  have "(fst (launch inp e) @ fst (waits inp e arn)) @ (fst (tailer inp e (taskIdOf arn)) @ post')
        = pre @ PollLogEvents g s t # post"
    using waited(3) assms by simp
  from prefix_before_first [OF this n]
  obtain zs where "pre = (fst (launch inp e) @ fst (waits inp e arn)) @ zs" by blast
  then show ?thesis using waits_ok [OF waited(2)] by auto
qed

lemma armed_with_placeholders:
  "PollLogEvents g s t \<in> set (main inp e) \<Longrightarrow>
   g = lit ''log-group-name'' \<and> s = lit ''log-stream-name''"
  using launch_events [of "PollLogEvents g s t" inp e] waits_events [of "PollLogEvents g s t" inp e]
    tailer_events [of "PollLogEvents g s t" inp e]
  by (cases inp e rule: main_cases) auto

lemma main_tailer_failed:
  assumes "runTask e = Inr (arn # rest)"
    and "\<forall>w. snd (waitFor e w \<lparr>delay = 6, maxAttempts = taskStoppedWaitForMaxAttempts inp\<rparr>) = Inr ()"
    and "snd (tailer inp e (taskIdOf arn)) = Inl err"
  shows "main inp e =
           fst (launch inp e) @ fst (waits inp e arn) @ fst (tailer inp e (taskIdOf arn))
           @ [SetFailed (Some (message err))]"
proof -
  have w: "snd (waits inp e arn) = Inr ()"
    using assms(2) by (simp add: waits_def awaitWaiter_eq bind_Inr [where a = "()"])
  have "body inp e =
          (fst (launch inp e) @ fst (waits inp e arn) @ fst (tailer inp e (taskIdOf arn)), Inl err)"
    unfolding body_def
    by (simp add: bind_Inr [OF launch_ok [OF assms(1)]] bind_Inr [OF w] bind_Inl [OF assms(3)])
  then show ?thesis by (simp add: main_def)
qed

lemma waits_resolved:
  assumes "\<forall>w. waitFor e w \<lparr>delay = 6, maxAttempts = taskStoppedWaitForMaxAttempts inp\<rparr> = (ws, Inr ())"
  shows "fst (waits inp e arn) =
           WaitFor TasksRunning (cluster inp) arn \<lparr>delay = 6, maxAttempts = taskStoppedWaitForMaxAttempts inp\<rparr>
           # map (Waiter TasksRunning) ws
           @ WaitFor TasksStopped (cluster inp) arn \<lparr>delay = 6, maxAttempts = taskStoppedWaitForMaxAttempts inp\<rparr>
           # map (Waiter TasksStopped) ws"
  using assms by (simp add: waits_def awaitWaiter_eq)

lemma example_tailer:
  "tailer tailInputs exampleEnv tid =
     ([DescribeTaskDefinition (lit ''job:7''),
       PollLogEvents (lit ''log-group-name'') (lit ''log-stream-name'') 1700000000],
      Inl (TypeError (lit ''logFilterStream.on is not a function'')))"
  by (simp add: tailer_def tailInputs_def exampleInputs_def exampleEnv_def exampleContainer_def
        exampleLogConfiguration_def logStreamNameOf_def streamOn_def Let_def)

lemma example_tail_run:
  "main tailInputs exampleEnv =
     fst (launch tailInputs exampleEnv)
     @ [WaitFor TasksRunning (lit ''prod'') exampleArn \<lparr>delay = 6, maxAttempts = 3\<rparr>,
        Waiter TasksRunning Poll,
        WaitFor TasksStopped (lit ''prod'') exampleArn \<lparr>delay = 6, maxAttempts = 3\<rparr>,
        Waiter TasksStopped Poll,
        DescribeTaskDefinition (lit ''job:7''),
        PollLogEvents (lit ''log-group-name'') (lit ''log-stream-name'') 1700000000,
        SetFailed (Some (lit ''logFilterStream.on is not a function''))]"
proof -
  have r: "runTask exampleEnv = Inr (exampleArn # [])"
    and w: "\<forall>w. snd (waitFor exampleEnv w \<lparr>delay = 6, maxAttempts = taskStoppedWaitForMaxAttempts tailInputs\<rparr>) = Inr ()"
    and w': "\<forall>w. waitFor exampleEnv w \<lparr>delay = 6, maxAttempts = taskStoppedWaitForMaxAttempts tailInputs\<rparr> = ([Poll], Inr ())"
    and i: "cluster tailInputs = lit ''prod''" "taskStoppedWaitForMaxAttempts tailInputs = 3"
    by (simp_all add: exampleEnv_def tailInputs_def exampleInputs_def)
  have t: "snd (tailer tailInputs exampleEnv (taskIdOf exampleArn))
           = Inl (TypeError (lit ''logFilterStream.on is not a function''))"
    by (simp add: example_tailer)
  show ?thesis
    by (simp add: main_tailer_failed [OF r w t] waits_resolved [OF w'] example_tailer i)
qed

text \<open>
  Claim C6 says that the tailer is armed once the task runs, before the stopped-wait
  completes, and fetches log events while the task runs. With tailing requested and a
  container that logs to \<open>awslogs\<close>, what \<^verbatim>\<open>main\<close> does after the launch is: running-wait,
  stopped-wait, and only then the task definition is read and the poller created; the
  poller is never invoked, and \<^verbatim>\<open>logFilterStream.on\<close> fails the invocation.
\<close>

theorem tailer_armed_after_stop:
  "drop (length (fst (launch tailInputs exampleEnv))) (main tailInputs exampleEnv) =
     [WaitFor TasksRunning (lit ''prod'') exampleArn \<lparr>delay = 6, maxAttempts = 3\<rparr>,
      Waiter TasksRunning Poll,
      WaitFor TasksStopped (lit ''prod'') exampleArn \<lparr>delay = 6, maxAttempts = 3\<rparr>,
      Waiter TasksStopped Poll,
      DescribeTaskDefinition (lit ''job:7''),
      PollLogEvents (lit ''log-group-name'') (lit ''log-stream-name'') 1700000000,
      SetFailed (Some (lit ''logFilterStream.on is not a function''))]"
  by (simp add: example_tail_run)

lemma example_task_id: "taskIdOf exampleArn = lit ''abc123''"
  by (simp add: taskIdOf_def exampleArn_def slash_def lit_simps)

text \<open>
  Claim C7 says that the log stream used for fetching is the join of stream prefix,
  container name and task id. For the container \<open>app\<close> with prefix \<open>ecs\<close> and the task
  \<open>abc123\<close> line 160 computes \<open>ecs/app/abc123\<close>, and the one poller that \<^verbatim>\<open>main\<close>
  creates is for the stream \<open>log-stream-name\<close>.
\<close>

theorem log_stream_placeholder:
  "logStreamNameOf exampleContainer exampleLogConfiguration (taskIdOf exampleArn)
     = Inr (lit ''ecs/app/abc123'')
   \<and> filter isPollLogEvents (main tailInputs exampleEnv)
       = [PollLogEvents (lit ''log-group-name'') (lit ''log-stream-name'') 1700000000]
   \<and> lit ''log-stream-name'' \<noteq> lit ''ecs/app/abc123''"
proof -
  have a: "logStreamNameOf exampleContainer exampleLogConfiguration (taskIdOf exampleArn)
           = Inr (lit ''ecs/app/abc123'')"
    by (simp add: example_task_id logStreamNameOf_def exampleContainer_def
          exampleLogConfiguration_def slash_def lit_simps)
  have l: "filter isPollLogEvents (fst (launch tailInputs exampleEnv)) = []"
    by (auto simp: filter_empty_conv dest!: launch_events)
  have b: "filter isPollLogEvents (main tailInputs exampleEnv)
           = [PollLogEvents (lit ''log-group-name'') (lit ''log-stream-name'') 1700000000]"
    by (simp add: example_tail_run l)
  have c: "lit ''log-stream-name'' \<noteq> lit ''ecs/app/abc123''"
    by (simp add: lit_simps)
  show ?thesis using a b c by simp
qed








text \<open>
  Claim C9: an invocation of the poller never throws. When the request fails, the
  invocation prints the diagnostic \<open>Error fetching log events\<close> with the error and returns
  normally, so nothing reaches the \<^verbatim>\<open>catch\<close> of \<^verbatim>\<open>main\<close>.
\<close>

theorem invoke_fetch_failure:
  "snd (invoke p send) = Inr ()
   \<and> (send p = Inl err \<longrightarrow>
        fst (invoke p send) = [SendGetLogEvents p, ConsoleError (lit ''Error fetching log events'') err])"
  by (cases "send p") (simp_all add: invoke_def)

theorem invoke_fetch_failure_witness:
  "invoke examplePoller failingLogService =
     ([SendGetLogEvents examplePoller,
       ConsoleError (lit ''Error fetching log events'') (ServiceError (lit ''ThrottlingException''))],
      Inr ())"
proof -
  have f: "failingLogService examplePoller = Inl (ServiceError (lit ''ThrottlingException''))"
    by (simp add: failingLogService_def)
  show ?thesis
    using f invoke_fetch_failure [of examplePoller failingLogService
        "ServiceError (lit ''ThrottlingException'')"]
    by (simp add: prod_eq_iff)
qed


end
